theory Spec2Isabelle
  imports Complex_Main "HOL-Library.Sublist" "HOL-Library.Multiset"
    "HOL-Library.Char_ord" "HOL-Library.List_Lexorder"
begin

section \<open>Data model\<close>

text \<open>
  The dashboard script \<^verbatim>\<open>app.py\<close> builds one table of per-state broadband figures and
  derives every view from it. A row of that table is the dictionary appended in
  \<^verbatim>\<open>generate_sample_data\<close>; its keys are kept as field names, in the order of the
  dictionary literal (which is the column order of the data frame).

  Python floats are modelled by the real numbers they denote: rounding of float64
  arithmetic is not modelled. Python integers are unbounded, so \<open>int\<close>. A
  \<^verbatim>\<open>datetime\<close> is the number of microseconds on its (naive, local) time line, so that
  subtracting a \<^verbatim>\<open>timedelta\<close> is integer subtraction.
\<close>

record coverage_record =
  Region :: string
  State :: string
  Population :: int
  Coverage_Percentage :: real
  Connected_Users :: int
  Avg_Speed_Mbps :: real
  Latency_ms :: real
  Last_Update :: int

type_synonym dataframe = "coverage_record list"

section \<open>Filter (app.py, lines 108 to 113)\<close>

text \<open>
  \<^verbatim>\<open>
  filtered_df = df.copy()
  if selected_region != "All Regions":
      filtered_df = filtered_df[filtered_df['Region'] == selected_region]
  filtered_df = filtered_df[filtered_df['Coverage_Percentage'] >= coverage_threshold]
  \<close>
  Indexing a frame by a boolean mask keeps the rows whose mask entry is true, in the
  order of the frame. The slider is declared with integer bounds, so the threshold is an
  integer, compared with the float column after conversion.
\<close>

definition filter_region :: "dataframe \<Rightarrow> string \<Rightarrow> dataframe" where
  "filter_region df selected_region =
     (if selected_region \<noteq> ''All Regions''
      then filter (\<lambda>r. Region r = selected_region) df
      else df)"

definition filter_coverage :: "dataframe \<Rightarrow> int \<Rightarrow> dataframe" where
  "filter_coverage df coverage_threshold =
     filter (\<lambda>r. Coverage_Percentage r \<ge> real_of_int coverage_threshold) df"

definition filtered_df :: "dataframe \<Rightarrow> string \<Rightarrow> int \<Rightarrow> dataframe" where
  "filtered_df df selected_region coverage_threshold =
     filter_coverage (filter_region df selected_region) coverage_threshold"

text \<open>Two concrete rows used to exercise the definitions.\<close>

definition row_lagos :: coverage_record where
  "row_lagos = \<lparr>Region = ''South West'', State = ''Lagos'', Population = 1000000,
     Coverage_Percentage = 50, Connected_Users = 500000, Avg_Speed_Mbps = 10,
     Latency_ms = 40, Last_Update = 0\<rparr>"

definition row_kano :: coverage_record where
  "row_kano = \<lparr>Region = ''North West'', State = ''Kano'', Population = 2000000,
     Coverage_Percentage = 30, Connected_Users = 600000, Avg_Speed_Mbps = 20,
     Latency_ms = 60, Last_Update = 0\<rparr>"

section \<open>Sample data (app.py, lines 46 to 79)\<close>

text \<open>
  The generator reads two things from outside the program: numpy's global random
  generator and the clock. Both are modelled by an explicit world state \<open>'w\<close> that
  every read takes and returns, so that the order of the reads in the source is the
  order of the state passing here. The operations themselves are library code and are
  parameters of the model.
\<close>

record 'w env =
  randint :: "int \<Rightarrow> int \<Rightarrow> 'w \<Rightarrow> int \<times> 'w"
  uniform :: "real \<Rightarrow> real \<Rightarrow> 'w \<Rightarrow> real \<times> 'w"
  now :: "'w \<Rightarrow> int \<times> 'w"

text \<open>
  What numpy documents of the two draws: \<^verbatim>\<open>randint(low, high)\<close> returns an integer
  of the half-open interval from \<open>low\<close> to \<open>high\<close>, and \<^verbatim>\<open>uniform(low, high)\<close> a
  float of the half-open interval from \<open>low\<close> to \<open>high\<close>.
\<close>

definition rng_ok :: "'w env \<Rightarrow> bool" where
  "rng_ok E \<longleftrightarrow>
     (\<forall>lo hi w. lo < hi \<longrightarrow> lo \<le> fst (randint E lo hi w) \<and> fst (randint E lo hi w) < hi) \<and>
     (\<forall>lo hi w. lo < hi \<longrightarrow> lo \<le> fst (uniform E lo hi w) \<and> fst (uniform E lo hi w) < hi)"

text \<open>Python's \<^verbatim>\<open>int(x)\<close> on a float truncates towards zero.\<close>

definition py_int :: "real \<Rightarrow> int" where
  "py_int x = (if 0 \<le> x then \<lfloor>x\<rfloor> else \<lceil>x\<rceil>)"

text \<open>\<^verbatim>\<open>timedelta(days=k)\<close> in microseconds.\<close>

definition timedelta_days :: "int \<Rightarrow> int" where
  "timedelta_days k = k * 86400000000"

text \<open>
  The dictionary \<^verbatim>\<open>regions\<close>; a Python dictionary iterates in insertion order, so it is
  an association list.
\<close>

definition regions :: "(string \<times> string list) list" where
  "regions =
    [(''North Central'', [''Benue'', ''Kogi'', ''Kwara'', ''Nasarawa'', ''Niger'', ''Plateau'', ''FCT'']),
     (''North East'', [''Adamawa'', ''Bauchi'', ''Borno'', ''Gombe'', ''Taraba'', ''Yobe'']),
     (''North West'', [''Jigawa'', ''Kaduna'', ''Kano'', ''Katsina'', ''Kebbi'', ''Sokoto'', ''Zamfara'']),
     (''South East'', [''Abia'', ''Anambra'', ''Ebonyi'', ''Enugu'', ''Imo'']),
     (''South South'', [''Akwa Ibom'', ''Bayelsa'', ''Cross River'', ''Delta'', ''Edo'', ''Rivers'']),
     (''South West'', [''Ekiti'', ''Lagos'', ''Ogun'', ''Ondo'', ''Osun'', ''Oyo''])]"

text \<open>
  One pass of the inner loop body: the draws in the order of the source (population,
  coverage, speed, latency, then the clock and the day offset inside the dictionary
  literal), and the row that \<^verbatim>\<open>data.append\<close> adds.
\<close>

definition make_row :: "'w env \<Rightarrow> string \<Rightarrow> string \<Rightarrow> 'w \<Rightarrow> coverage_record \<times> 'w" where
  "make_row E region state w =
     (let (population, w1) = randint E 500000 8000000 w;
          (coverage_percentage, w2) = uniform E 20 95 w1;
          connected_users = py_int (real_of_int population * (coverage_percentage / 100));
          (avg_speed, w3) = uniform E 5 50 w2;
          (latency, w4) = uniform E 20 150 w3;
          (t, w5) = now E w4;
          (days, w6) = randint E 0 30 w5
      in (\<lparr>Region = region, State = state, Population = population,
           Coverage_Percentage = coverage_percentage, Connected_Users = connected_users,
           Avg_Speed_Mbps = avg_speed, Latency_ms = latency,
           Last_Update = t - timedelta_days days\<rparr>, w6))"

text \<open>The inner loop \<^verbatim>\<open>for state in states\<close>, appending to \<^verbatim>\<open>data\<close>.\<close>

fun gen_states :: "'w env \<Rightarrow> string \<Rightarrow> string list \<Rightarrow> dataframe \<Rightarrow> 'w \<Rightarrow> dataframe \<times> 'w" where
  "gen_states E region [] data w = (data, w)"
| "gen_states E region (state # states) data w =
     (let (row, w') = make_row E region state w
      in gen_states E region states (data @ [row]) w')"

text \<open>The outer loop \<^verbatim>\<open>for region, states in regions.items()\<close>.\<close>

fun gen_regions :: "'w env \<Rightarrow> (string \<times> string list) list \<Rightarrow> dataframe \<Rightarrow> 'w \<Rightarrow> dataframe \<times> 'w" where
  "gen_regions E [] data w = (data, w)"
| "gen_regions E ((region, states) # rest) data w =
     (let (data', w') = gen_states E region states data w
      in gen_regions E rest data' w')"

definition generate_sample_data :: "'w env \<Rightarrow> 'w \<Rightarrow> dataframe \<times> 'w" where
  "generate_sample_data E w = gen_regions E regions [] w"

text \<open>
  A world for running the generator on: the state counts the reads, every draw
  returns the low end of its interval and the clock returns the count.
\<close>

definition env0 :: "nat env" where
  "env0 = \<lparr>randint = (\<lambda>lo hi w. (lo, Suc w)), uniform = (\<lambda>lo hi w. (lo, Suc w)),
           now = (\<lambda>w. (int w, Suc w))\<rparr>"

text \<open>
  The ranges of the data model, as one predicate on a row, and the pairing of regions
  with states that the two loops enumerate.
\<close>

definition row_in_range :: "coverage_record \<Rightarrow> bool" where
  "row_in_range r \<longleftrightarrow>
     Connected_Users r \<le> Population r \<and>
     500000 \<le> Population r \<and> Population r < 8000000 \<and>
     20 \<le> Coverage_Percentage r \<and> Coverage_Percentage r < 95 \<and>
     5 \<le> Avg_Speed_Mbps r \<and> Avg_Speed_Mbps r < 50 \<and>
     20 \<le> Latency_ms r \<and> Latency_ms r < 150"

definition pairing :: "(string \<times> string list) list \<Rightarrow> (string \<times> string) list" where
  "pairing regs = concat (map (\<lambda>(region, states). map (Pair region) states) regs)"

section \<open>Key metrics (app.py, lines 116 to 150)\<close>

text \<open>
  A float result that may be NaN. \<^verbatim>\<open>Series.mean()\<close> of an empty column is NaN and
  raises nothing; any subtraction with a NaN operand is NaN. \<^verbatim>\<open>Series.sum()\<close> of an
  empty integer column is 0.
\<close>

datatype pyfloat = NaN | Fl real

fun fsub :: "pyfloat \<Rightarrow> pyfloat \<Rightarrow> pyfloat" where
  "fsub (Fl a) (Fl b) = Fl (a - b)"
| "fsub _ _ = NaN"

definition mean :: "real list \<Rightarrow> pyfloat" where
  "mean xs = (if xs = [] then NaN else Fl (sum_list xs / real (length xs)))"

text \<open>
  The values handed to the four \<^verbatim>\<open>st.metric\<close> calls, before the f-strings format
  them to one decimal: \<open>df\<close> is the full table and \<open>fdf\<close> the filtered one.
  \<^verbatim>\<open>
  total_coverage = filtered_df['Coverage_Percentage'].mean()
  delta = total_coverage - df['Coverage_Percentage'].mean()
  total_users = filtered_df['Connected_Users'].sum()
  delta = total_users/1000000
  avg_speed = filtered_df['Avg_Speed_Mbps'].mean()
  delta = avg_speed - df['Avg_Speed_Mbps'].mean()
  avg_latency = filtered_df['Latency_ms'].mean()
  delta = avg_latency - df['Latency_ms'].mean()
  \<close>
\<close>

record key_metrics =
  total_coverage :: pyfloat
  total_coverage_delta :: pyfloat
  total_users :: int
  total_users_delta :: real
  avg_speed :: pyfloat
  avg_speed_delta :: pyfloat
  avg_latency :: pyfloat
  avg_latency_delta :: pyfloat

definition metrics :: "dataframe \<Rightarrow> dataframe \<Rightarrow> key_metrics" where
  "metrics df fdf =
     (let total_coverage = mean (map Coverage_Percentage fdf);
          total_users = sum_list (map Connected_Users fdf);
          avg_speed = mean (map Avg_Speed_Mbps fdf);
          avg_latency = mean (map Latency_ms fdf)
      in \<lparr>total_coverage = total_coverage,
          total_coverage_delta = fsub total_coverage (mean (map Coverage_Percentage df)),
          total_users = total_users,
          total_users_delta = real_of_int total_users / 1000000,
          avg_speed = avg_speed,
          avg_speed_delta = fsub avg_speed (mean (map Avg_Speed_Mbps df)),
          avg_latency = avg_latency,
          avg_latency_delta = fsub avg_latency (mean (map Latency_ms df))\<rparr>)"

text \<open>The arithmetic mean of a column, for stating what the metrics are.\<close>

definition average :: "(coverage_record \<Rightarrow> real) \<Rightarrow> dataframe \<Rightarrow> real" where
  "average col xs = sum_list (map col xs) / real (length xs)"

section \<open>Coverage map (app.py, lines 161 to 173)\<close>

text \<open>
  \<^verbatim>\<open>
  map_df = filtered_df.copy()
  map_df['lat'] = map_df['Region'].map(lambda x: nigeria_coords[x]['lat'] + np.random.uniform(-1, 1))
  map_df['lon'] = map_df['Region'].map(lambda x: nigeria_coords[x]['lon'] + np.random.uniform(-1, 1))
  \<close>
  Assigning a column changes the frame object in place, so this step is modelled on a
  store of frame objects: a variable of the script holds the address of its frame,
  \<^verbatim>\<open>copy()\<close> allocates a new object, and a column assignment updates the object at the
  variable's address. A frame object is the table plus the two added columns, absent
  until assigned.
\<close>

record frame =
  rows :: dataframe
  lat_col :: "real list option"
  lon_col :: "real list option"

record heap =
  objs :: "nat \<Rightarrow> frame"
  next_addr :: nat

definition copy :: "heap \<Rightarrow> nat \<Rightarrow> nat \<times> heap" where
  "copy h a = (next_addr h, \<lparr>objs = (objs h)(next_addr h := objs h a), next_addr = Suc (next_addr h)\<rparr>)"

definition set_lat :: "heap \<Rightarrow> nat \<Rightarrow> real list \<Rightarrow> heap" where
  "set_lat h a xs = h\<lparr>objs := (objs h)(a := (objs h a)\<lparr>lat_col := Some xs\<rparr>)\<rparr>"

definition set_lon :: "heap \<Rightarrow> nat \<Rightarrow> real list \<Rightarrow> heap" where
  "set_lon h a xs = h\<lparr>objs := (objs h)(a := (objs h a)\<lparr>lon_col := Some xs\<rparr>)\<rparr>"

record coords =
  lat :: real
  lon :: real

definition nigeria_coords :: "(string \<times> coords) list" where
  "nigeria_coords =
    [(''North Central'', \<lparr>lat = 8.5, lon = 8.0\<rparr>),
     (''North East'', \<lparr>lat = 10.5, lon = 12.5\<rparr>),
     (''North West'', \<lparr>lat = 12.0, lon = 8.0\<rparr>),
     (''South East'', \<lparr>lat = 5.5, lon = 7.5\<rparr>),
     (''South South'', \<lparr>lat = 5.0, lon = 6.0\<rparr>),
     (''South West'', \<lparr>lat = 7.0, lon = 4.0\<rparr>)]"

datatype error = KeyError string

text \<open>
  \<^verbatim>\<open>Series.map\<close> with the lambda: one call per element, in order. Each call looks the
  region up (a missing key raises \<^verbatim>\<open>KeyError\<close> before anything is drawn) and then
  draws its own offset.
\<close>

fun map_jitter :: "'w env \<Rightarrow> (coords \<Rightarrow> real) \<Rightarrow> string list \<Rightarrow> 'w \<Rightarrow> error + (real list \<times> 'w)" where
  "map_jitter E axis [] w = Inr ([], w)"
| "map_jitter E axis (x # xs) w =
     (case map_of nigeria_coords x of
        None \<Rightarrow> Inl (KeyError x)
      | Some c \<Rightarrow>
          (let (u, w') = uniform E (-1) 1 w
           in case map_jitter E axis xs w' of
                Inl e \<Rightarrow> Inl e
              | Inr (ys, w'') \<Rightarrow> Inr ((axis c + u) # ys, w'')))"

definition coverage_map :: "'w env \<Rightarrow> heap \<Rightarrow> nat \<Rightarrow> 'w \<Rightarrow> error + (nat \<times> heap \<times> 'w)" where
  "coverage_map E h filtered w =
     (let (map_df, h1) = copy h filtered
      in case map_jitter E lat (map Region (rows (objs h1 map_df))) w of
           Inl e \<Rightarrow> Inl e
         | Inr (lats, w1) \<Rightarrow>
             (let h2 = set_lat h1 map_df lats
              in case map_jitter E lon (map Region (rows (objs h2 map_df))) w1 of
                   Inl e \<Rightarrow> Inl e
                 | Inr (lons, w2) \<Rightarrow> Inr (map_df, set_lon h2 map_df lons, w2)))"

text \<open>The first \<open>n\<close> results of drawing \<^verbatim>\<open>uniform(-1, 1)\<close> again and again from a state.\<close>

fun draws :: "'w env \<Rightarrow> nat \<Rightarrow> 'w \<Rightarrow> real list \<times> 'w" where
  "draws E 0 w = ([], w)"
| "draws E (Suc n) w =
     (let (u, w') = uniform E (-1) 1 w; (us, w'') = draws E n w' in (u # us, w''))"

text \<open>A store for running the step on: the filtered table at address 0.\<close>

definition heap0 :: heap where
  "heap0 = \<lparr>objs = (\<lambda>a. \<lparr>rows = [row_lagos, row_kano], lat_col = None, lon_col = None\<rparr>),
            next_addr = 1\<rparr>"

section \<open>Regional aggregation (app.py, lines 211 to 215 and 232)\<close>

text \<open>
  \<^verbatim>\<open>
  regional_avg = filtered_df.groupby('Region').agg({
      'Coverage_Percentage': 'mean', 'Connected_Users': 'sum', 'State': 'count'
  }).reset_index()
  regional_users = filtered_df.groupby('Region')['Connected_Users'].sum().reset_index()
  \<close>
  \<^verbatim>\<open>groupby\<close> makes one group per value of the key column that occurs in the frame, the
  groups in ascending order of the key (its default \<^verbatim>\<open>sort=True\<close>); strings compare
  character by character. After \<^verbatim>\<open>reset_index\<close> the result has one row per group: the key
  and the aggregates.
\<close>

definition group_keys :: "dataframe \<Rightarrow> string list" where
  "group_keys fdf = sort (remdups (map Region fdf))"

definition get_group :: "dataframe \<Rightarrow> string \<Rightarrow> dataframe" where
  "get_group fdf k = filter (\<lambda>r. Region r = k) fdf"

definition regional_avg :: "dataframe \<Rightarrow> (string \<times> pyfloat \<times> int \<times> nat) list" where
  "regional_avg fdf =
     map (\<lambda>k. let g = get_group fdf k
              in (k, mean (map Coverage_Percentage g), sum_list (map Connected_Users g),
                  length (map State g)))
         (group_keys fdf)"

definition regional_users :: "dataframe \<Rightarrow> (string \<times> int) list" where
  "regional_users fdf =
     map (\<lambda>k. (k, sum_list (map Connected_Users (get_group fdf k)))) (group_keys fdf)"

section \<open>Raw data table (app.py, lines 277 to 283)\<close>

text \<open>
  \<^verbatim>\<open>
  filtered_df[['Region', 'State', 'Coverage_Percentage', 'Connected_Users',
               'Avg_Speed_Mbps', 'Latency_ms', 'Last_Update']
             ].sort_values('Coverage_Percentage', ascending=False)
  \<close>
  The selection keeps seven of the eight columns (not \<^verbatim>\<open>Population\<close>). A row of the
  selection is a record of its own; its field names carry a suffix because the column
  names are taken by the full row.
\<close>

record raw_row =
  Region_raw :: string
  State_raw :: string
  Coverage_Percentage_raw :: real
  Connected_Users_raw :: int
  Avg_Speed_Mbps_raw :: real
  Latency_ms_raw :: real
  Last_Update_raw :: int

definition select_raw :: "coverage_record \<Rightarrow> raw_row" where
  "select_raw r = \<lparr>Region_raw = Region r, State_raw = State r,
     Coverage_Percentage_raw = Coverage_Percentage r, Connected_Users_raw = Connected_Users r,
     Avg_Speed_Mbps_raw = Avg_Speed_Mbps r, Latency_ms_raw = Latency_ms r,
     Last_Update_raw = Last_Update r\<rparr>"

text \<open>
  \<^verbatim>\<open>sort_values(by, ascending=False)\<close>: pandas reverses the rows, sorts them in ascending
  order of the key and reverses the result. The ascending sort is the insertion sort of
  the list library here. pandas' default algorithm may order rows of equal key
  differently; nothing below depends on the order of rows of equal key.
\<close>

definition sort_values_desc :: "('a \<Rightarrow> real) \<Rightarrow> 'a list \<Rightarrow> 'a list" where
  "sort_values_desc by xs = rev (sort_key by (rev xs))"

definition raw_data :: "dataframe \<Rightarrow> raw_row list" where
  "raw_data fdf = sort_values_desc Coverage_Percentage_raw (map select_raw fdf)"

section \<open>CSV export (app.py, lines 286 to 292)\<close>

text \<open>
  \<^verbatim>\<open>
  csv = filtered_df.to_csv(index=False)
  file_name=f"nigcomsat_coverage_{datetime.now().strftime('%Y%m%d')}.csv"
  \<close>
  The export is called on \<^verbatim>\<open>filtered_df\<close> itself, not on the seven-column selection of
  the table above, so it writes every column of the frame: the keys of the dictionary
  built in \<^verbatim>\<open>generate_sample_data\<close>, in their order.
\<close>

definition columns :: "string list" where
  "columns = [''Region'', ''State'', ''Population'', ''Coverage_Percentage'',
              ''Connected_Users'', ''Avg_Speed_Mbps'', ''Latency_ms'', ''Last_Update'']"

text \<open>
  How a float and a timestamp are printed, and the line terminator (\<^verbatim>\<open>os.linesep\<close>), are
  the library's and the platform's; they are parameters.
\<close>

record formats =
  float_repr :: "real \<Rightarrow> string"
  datetime_str :: "int \<Rightarrow> string"
  linesep :: string

text \<open>Python's \<^verbatim>\<open>str\<close> of an integer: decimal digits, with a minus sign when negative.\<close>

definition digit_char :: "nat \<Rightarrow> char" where
  "digit_char d = ''0123456789'' ! d"

fun digits :: "nat \<Rightarrow> string" where
  "digits n = (if n < 10 then [digit_char n] else digits (n div 10) @ [digit_char (n mod 10)])"

definition str_int :: "int \<Rightarrow> string" where
  "str_int i = (if i < 0 then CHR ''-'' # digits (nat (- i)) else digits (nat i))"

text \<open>
  The csv writer's default quoting (\<^verbatim>\<open>QUOTE_MINIMAL\<close>): a field is put in double quotes,
  its own double quotes doubled, when it contains the delimiter, a double quote, or a
  line-break character; any other field is written as it is.
\<close>

definition special_chars :: "string \<Rightarrow> string" where
  "special_chars sep = [CHR '','', CHR 0x22, CHR 0x0D, CHR 0x0A] @ sep"

definition needs_quote :: "string \<Rightarrow> string \<Rightarrow> bool" where
  "needs_quote sep s = list_ex (\<lambda>c. c \<in> set (special_chars sep)) s"

definition quote_field :: "string \<Rightarrow> string \<Rightarrow> string" where
  "quote_field sep s =
     (if needs_quote sep s
      then [CHR 0x22] @ concat (map (\<lambda>c. if c = CHR 0x22 then [c, c] else [c]) s) @ [CHR 0x22]
      else s)"

fun join :: "string \<Rightarrow> string list \<Rightarrow> string" where
  "join sep [] = []"
| "join sep [x] = x"
| "join sep (x # y # ys) = x @ sep @ join sep (y # ys)"

definition csv_line :: "string \<Rightarrow> string list \<Rightarrow> string" where
  "csv_line sep cells = join '','' (map (quote_field sep) cells) @ sep"

definition row_fields :: "formats \<Rightarrow> coverage_record \<Rightarrow> string list" where
  "row_fields F r =
     [Region r, State r, str_int (Population r), float_repr F (Coverage_Percentage r),
      str_int (Connected_Users r), float_repr F (Avg_Speed_Mbps r), float_repr F (Latency_ms r),
      datetime_str F (Last_Update r)]"

definition to_csv :: "formats \<Rightarrow> dataframe \<Rightarrow> string" where
  "to_csv F fdf = concat (map (csv_line (linesep F)) (columns # map (row_fields F) fdf))"

text \<open>
  The file name. \<^verbatim>\<open>strftime('%Y%m%d')\<close> prints the calendar date of the clock reading:
  the year in four digits, then month and day padded with zeros to two digits. (A year
  below 1000, which a running clock does not read, is padded here; platforms differ
  there.) The conversion of a clock reading to a calendar date is the library's and is
  a parameter.
\<close>

record date =
  year :: nat
  month :: nat
  day :: nat

definition zero_pad :: "nat \<Rightarrow> string \<Rightarrow> string" where
  "zero_pad width s = replicate (width - length s) CHR ''0'' @ s"

definition strftime_Ymd :: "date \<Rightarrow> string" where
  "strftime_Ymd d = zero_pad 4 (digits (year d)) @ zero_pad 2 (digits (month d)) @ zero_pad 2 (digits (day d))"

definition file_name :: "(int \<Rightarrow> date) \<Rightarrow> int \<Rightarrow> string" where
  "file_name calendar t = ''nigcomsat_coverage_'' @ strftime_Ymd (calendar t) @ ''.csv''"

text \<open>
  Reading a CSV text back, for texts without quoted fields: the lines up to each line
  feed, each split at its commas.
\<close>

fun split_acc :: "char \<Rightarrow> string \<Rightarrow> string \<Rightarrow> string list" where
  "split_acc c acc [] = [rev acc]"
| "split_acc c acc (x # xs) =
     (if x = c then rev acc # split_acc c [] xs else split_acc c (x # acc) xs)"

definition split_on :: "char \<Rightarrow> string \<Rightarrow> string list" where
  "split_on c s = split_acc c [] s"

definition read_csv :: "string \<Rightarrow> string list list" where
  "read_csv text = map (split_on CHR '','') (butlast (split_on CHR 0x0A text))"

definition plain :: "string \<Rightarrow> bool" where
  "plain s \<longleftrightarrow> list_all (\<lambda>c. c \<notin> set [CHR '','', CHR 0x22, CHR 0x0D, CHR 0x0A]) s"

text \<open>A formatter to run the export with, and a calendar that always reads 3 November 2026.\<close>

definition formats0 :: formats where
  "formats0 = \<lparr>float_repr = (\<lambda>x. str_int \<lfloor>x\<rfloor> @ ''.0''), datetime_str = str_int,
               linesep = [CHR 0x0A]\<rparr>"

definition calendar0 :: "int \<Rightarrow> date" where
  "calendar0 t = \<lparr>year = 2026, month = 11, day = 3\<rparr>"

declare digits.simps [simp del]

section \<open>Properties of the generator\<close>

lemma rng_ok_env0: "rng_ok env0"
  by (simp add: rng_ok_def env0_def)

lemma py_int_le:
  assumes "0 \<le> p" "0 \<le> c" "c < 100"
  shows "py_int (real_of_int p * (c / 100)) \<le> p"
proof -
  have "c / 100 \<le> 1" using assms by simp
  then have "real_of_int p * (c / 100) \<le> real_of_int p * 1"
    using assms(1) by (intro mult_left_mono) simp_all
  moreover have "0 \<le> real_of_int p * (c / 100)" using assms by simp
  ultimately show ?thesis by (simp add: py_int_def floor_le_iff)
qed

lemma make_row_key:
  "Region (fst (make_row E region state w)) = region"
  "State (fst (make_row E region state w)) = state"
  by (simp_all add: make_row_def split: prod.splits)

lemma make_row_in_range:
  assumes "rng_ok E"
  shows "row_in_range (fst (make_row E region state w))"
proof -
  obtain p w1 where p: "randint E 500000 8000000 w = (p, w1)" by fastforce
  obtain c w2 where c: "uniform E 20 95 w1 = (c, w2)" by fastforce
  obtain s w3 where s: "uniform E 5 50 w2 = (s, w3)" by fastforce
  obtain l w4 where l: "uniform E 20 150 w3 = (l, w4)" by fastforce
  obtain t w5 where t: "now E w4 = (t, w5)" by fastforce
  obtain d w6 where d: "randint E 0 30 w5 = (d, w6)" by fastforce
  have R: "\<And>lo hi w. lo < hi \<Longrightarrow> lo \<le> fst (randint E lo hi w) \<and> fst (randint E lo hi w) < hi"
    and U: "\<And>lo hi w. lo < hi \<Longrightarrow> lo \<le> fst (uniform E lo hi w) \<and> fst (uniform E lo hi w) < hi"
    using assms by (auto simp: rng_ok_def)
  have pb: "500000 \<le> p \<and> p < 8000000" using R [of 500000 8000000 w] p by simp
  have cb: "20 \<le> c \<and> c < 95" using U [of 20 95 w1] c by simp
  have sb: "5 \<le> s \<and> s < 50" using U [of 5 50 w2] s by simp
  have lb: "20 \<le> l \<and> l < 150" using U [of 20 150 w3] l by simp
  have "py_int (real_of_int p * (c / 100)) \<le> p"
    using pb cb by (intro py_int_le) simp_all
  then show ?thesis
    using pb cb sb lb by (simp add: make_row_def p c s l t d row_in_range_def)
qed

lemma gen_states_eq:
  "\<exists>rows. fst (gen_states E region states data w) = data @ rows
     \<and> map (\<lambda>r. (Region r, State r)) rows = map (Pair region) states
     \<and> (rng_ok E \<longrightarrow> (\<forall>r \<in> set rows. row_in_range r))"
proof (induction states arbitrary: data w)
  case Nil
  then show ?case by simp
next
  case (Cons state states)
  obtain row w' where m: "make_row E region state w = (row, w')" by fastforce
  from Cons.IH [of "data @ [row]" w'] obtain rows where
    rows: "fst (gen_states E region states (data @ [row]) w') = (data @ [row]) @ rows"
      "map (\<lambda>r. (Region r, State r)) rows = map (Pair region) states"
      "rng_ok E \<longrightarrow> (\<forall>r \<in> set rows. row_in_range r)" by blast
  have "row = fst (make_row E region state w)" using m by simp
  then have row: "Region row = region" "State row = state" "rng_ok E \<longrightarrow> row_in_range row"
    using make_row_in_range [of E region state w] make_row_key [of E region state w] by auto
  have "fst (gen_states E region (state # states) data w) = data @ (row # rows)"
    using m rows(1) by simp
  moreover have "map (\<lambda>r. (Region r, State r)) (row # rows) = map (Pair region) (state # states)"
    using row rows(2) by simp
  moreover have "rng_ok E \<longrightarrow> (\<forall>r \<in> set (row # rows). row_in_range r)"
    using row(3) rows(3) by simp
  ultimately show ?case by blast
qed

lemma gen_regions_eq:
  "\<exists>rows. fst (gen_regions E regs data w) = data @ rows
     \<and> map (\<lambda>r. (Region r, State r)) rows = pairing regs
     \<and> (rng_ok E \<longrightarrow> (\<forall>r \<in> set rows. row_in_range r))"
proof (induction regs arbitrary: data w)
  case Nil
  then show ?case by (simp add: pairing_def)
next
  case (Cons rs regs)
  obtain region states where rs: "rs = (region, states)" by (cases rs)
  obtain data' w' where g: "gen_states E region states data w = (data', w')" by fastforce
  from gen_states_eq [of E region states data w] g obtain rows1 where
    r1: "data' = data @ rows1"
      "map (\<lambda>r. (Region r, State r)) rows1 = map (Pair region) states"
      "rng_ok E \<longrightarrow> (\<forall>r \<in> set rows1. row_in_range r)" by auto
  from Cons.IH [of data' w'] obtain rows2 where
    r2: "fst (gen_regions E regs data' w') = data' @ rows2"
      "map (\<lambda>r. (Region r, State r)) rows2 = pairing regs"
      "rng_ok E \<longrightarrow> (\<forall>r \<in> set rows2. row_in_range r)" by blast
  have "fst (gen_regions E (rs # regs) data w) = data @ (rows1 @ rows2)"
    using rs g r1(1) r2(1) by simp
  moreover have "map (\<lambda>r. (Region r, State r)) (rows1 @ rows2) = pairing (rs # regs)"
    using rs r1(2) r2(2) by (simp add: pairing_def)
  moreover have "rng_ok E \<longrightarrow> (\<forall>r \<in> set (rows1 @ rows2). row_in_range r)"
    using r1(3) r2(3) by auto
  ultimately show ?case by blast
qed

lemma generate_shape:
  "map (\<lambda>r. (Region r, State r)) (fst (generate_sample_data E w)) = pairing regions"
  and generate_rows_ok: "rng_ok E \<Longrightarrow> \<forall>r \<in> set (fst (generate_sample_data E w)). row_in_range r"
  using gen_regions_eq [of E regions "[]" w] by (auto simp: generate_sample_data_def)

lemma length_pairing_regions: "length (pairing regions) = 37"
  by (simp add: pairing_def regions_def)

lemma pairing_regions_keys: "fst ` set (pairing regions) = fst ` set nigeria_coords"
  by (simp add: pairing_def regions_def nigeria_coords_def insert_commute)

lemma generate_regions_known:
  assumes "r \<in> set (fst (generate_sample_data E w))"
  shows "map_of nigeria_coords (Region r) \<noteq> None"
proof -
  have "(Region r, State r) \<in> set (map (\<lambda>r. (Region r, State r)) (fst (generate_sample_data E w)))"
    using assms by (simp add: image_iff) blast
  then have "(Region r, State r) \<in> set (pairing regions)"
    by (simp only: generate_shape)
  then have "Region r \<in> fst ` set (pairing regions)"
    by (metis fst_conv image_eqI)
  then have "Region r \<in> fst ` set nigeria_coords"
    by (simp only: pairing_regions_keys)
  then show ?thesis by (simp add: map_of_eq_None_iff)
qed

text \<open>
  C4. For every behaviour of the random source within numpy's documented ranges, the
  generated table has exactly 37 rows, its region and state columns are the fixed
  pairing of the \<^verbatim>\<open>regions\<close> dictionary in order, and every row has
  connected users at most the population, coverage in [20, 95), population in
  [500000, 8000000), speed in [5, 50) and latency in [20, 150).
\<close>

theorem generate_sample_data_invariants:
  assumes "rng_ok E"
  shows "length (fst (generate_sample_data E w)) = 37 \<and>
     map (\<lambda>r. (Region r, State r)) (fst (generate_sample_data E w)) = pairing regions \<and>
     (\<forall>r \<in> set (fst (generate_sample_data E w)).
        Connected_Users r \<le> Population r \<and>
        20 \<le> Coverage_Percentage r \<and> Coverage_Percentage r < 95 \<and>
        500000 \<le> Population r \<and> Population r < 8000000 \<and>
        5 \<le> Avg_Speed_Mbps r \<and> Avg_Speed_Mbps r < 50 \<and>
        20 \<le> Latency_ms r \<and> Latency_ms r < 150)"
proof -
  have "length (map (\<lambda>r. (Region r, State r)) (fst (generate_sample_data E w))) = 37"
    by (simp only: generate_shape length_pairing_regions)
  then have "length (fst (generate_sample_data E w)) = 37" by simp
  moreover have "\<forall>r \<in> set (fst (generate_sample_data E w)). row_in_range r"
    using assms by (rule generate_rows_ok)
  ultimately show ?thesis
    using generate_shape [of E w] by (simp add: row_in_range_def)
qed

theorem generate_sample_data_invariants_witness:
  "rng_ok env0 \<and> length (fst (generate_sample_data env0 0)) = 37 \<and>
   list_all (\<lambda>r. Connected_Users r \<le> Population r \<and> Coverage_Percentage r < 95)
     (fst (generate_sample_data env0 0))"
  unfolding list_all_iff
  using rng_ok_env0 generate_sample_data_invariants [OF rng_ok_env0, of 0] by blast

section \<open>Properties of the filter\<close>

lemma filtered_df_filter:
  "filtered_df df sel thr =
     filter (\<lambda>r. (sel = ''All Regions'' \<or> Region r = sel) \<and>
                 real_of_int thr \<le> Coverage_Percentage r) df"
  by (simp add: filtered_df_def filter_region_def filter_coverage_def conj_commute)

text \<open>
  C1. Every record of the filter's output has a coverage of at least the threshold and
  either the selector is "All Regions" or the record's region is the selector; and a
  record of the input that fails one of the two conditions is not in the output.
\<close>

theorem filtered_df_sound_and_excluding:
  "(\<forall>r \<in> set (filtered_df df sel thr).
      Coverage_Percentage r \<ge> real_of_int thr \<and> (sel = ''All Regions'' \<or> Region r = sel))
   \<and> (\<forall>r \<in> set df.
      \<not> (Coverage_Percentage r \<ge> real_of_int thr \<and> (sel = ''All Regions'' \<or> Region r = sel))
        \<longrightarrow> r \<notin> set (filtered_df df sel thr))"
  by (auto simp add: filtered_df_filter)

theorem filtered_df_sound_and_excluding_witness:
  "filtered_df [row_lagos, row_kano] ''South West'' 40 = [row_lagos]
   \<and> row_kano \<notin> set (filtered_df [row_lagos, row_kano] ''South West'' 40)
   \<and> Coverage_Percentage row_lagos \<ge> real_of_int 40"
  using filtered_df_sound_and_excluding [of "[row_lagos, row_kano]" "''South West''" 40]
  by (simp add: filtered_df_filter row_lagos_def row_kano_def)

text \<open>
  C6. With the selector "All Regions" and the threshold 0 the filter returns its input,
  same rows in the same order, for every table whose coverage values are not negative
  (every generated table: coverage is drawn from [20, 95)). The condition is also
  necessary.
\<close>

theorem filtered_df_all_regions_zero_identity:
  "(\<forall>r \<in> set df. 0 \<le> Coverage_Percentage r) \<longleftrightarrow> filtered_df df ''All Regions'' 0 = df"
  by (simp add: filtered_df_filter filter_id_conv)

theorem filtered_df_all_regions_zero_identity_witness:
  "list_all (\<lambda>r. 0 \<le> Coverage_Percentage r) (fst (generate_sample_data env0 0))
   \<and> filtered_df (fst (generate_sample_data env0 0)) ''All Regions'' 0
       = fst (generate_sample_data env0 0)"
proof -
  have "\<forall>r \<in> set (fst (generate_sample_data env0 0)). row_in_range r"
    using rng_ok_env0 by (rule generate_rows_ok)
  then have nonneg: "\<forall>r \<in> set (fst (generate_sample_data env0 0)). 0 \<le> Coverage_Percentage r"
    by (auto simp: row_in_range_def)
  then show ?thesis
    unfolding list_all_iff
    using filtered_df_all_regions_zero_identity [of "fst (generate_sample_data env0 0)"]
    by blast
qed

text \<open>
  C7. The filter's output is a subsequence of its input: the surviving rows keep their
  relative order. The filter is a total function, so an empty result is an ordinary
  value: when no row passes, the result is the empty table.
\<close>

theorem filtered_df_subseq:
  "subseq (filtered_df df sel thr) df
   \<and> ((\<forall>r \<in> set df. \<not> ((sel = ''All Regions'' \<or> Region r = sel)
                          \<and> real_of_int thr \<le> Coverage_Percentage r))
        \<longrightarrow> filtered_df df sel thr = [])"
  by (auto simp add: filtered_df_filter filter_empty_conv)

theorem filtered_df_subseq_witness:
  "subseq (filtered_df [row_lagos, row_kano] ''South East'' 10) [row_lagos, row_kano]
   \<and> filtered_df [row_lagos, row_kano] ''South East'' 10 = []"
  using filtered_df_subseq [of "[row_lagos, row_kano]" "''South East''" 10]
  by (simp add: row_lagos_def row_kano_def)

section \<open>Properties of the key metrics\<close>

lemma mean_Nil: "mean [] = NaN" by (simp add: mean_def)

lemma mean_map: "xs \<noteq> [] \<Longrightarrow> mean (map col xs) = Fl (average col xs)"
  by (simp add: mean_def average_def)

text \<open>
  C3 as stated fails for the users metric: its delta is the filtered total divided by
  one million, not the difference to the total of the full table. On the table
  generated in the world \<open>env0\<close>, filtered to the region South West, the filtered total
  is 600000 and the full total 3700000: the difference is -3100000 and the delta 0.6.
\<close>

theorem metrics_users_delta_counterexample:
  "total_users_delta (metrics (fst (generate_sample_data env0 0))
       (filtered_df (fst (generate_sample_data env0 0)) ''South West'' 0))
     \<noteq> real_of_int (total_users (metrics (fst (generate_sample_data env0 0))
            (filtered_df (fst (generate_sample_data env0 0)) ''South West'' 0))
          - sum_list (map Connected_Users (fst (generate_sample_data env0 0))))"
  by (simp add: generate_sample_data_def regions_def env0_def make_row_def py_int_def
      timedelta_days_def filtered_df_def filter_region_def filter_coverage_def metrics_def Let_def)

text \<open>
  C3, amended. For a non-empty full table: the three mean metrics (coverage, speed,
  latency) of a non-empty filtered table are the column averages of the filtered
  table, each paired with that average minus the same average over the full table;
  on an empty filtered table the three metrics and their deltas are NaN. The users
  metric is the sum of connected users over the filtered table, paired with that sum
  divided by 1000000.
\<close>

theorem metrics_deltas:
  "df \<noteq> [] \<Longrightarrow>
   total_users (metrics df fdf) = sum_list (map Connected_Users fdf) \<and>
   total_users_delta (metrics df fdf) = real_of_int (sum_list (map Connected_Users fdf)) / 1000000 \<and>
   (if fdf = [] then
      total_coverage (metrics df fdf) = NaN \<and> total_coverage_delta (metrics df fdf) = NaN \<and>
      avg_speed (metrics df fdf) = NaN \<and> avg_speed_delta (metrics df fdf) = NaN \<and>
      avg_latency (metrics df fdf) = NaN \<and> avg_latency_delta (metrics df fdf) = NaN
    else
      total_coverage (metrics df fdf) = Fl (average Coverage_Percentage fdf) \<and>
      total_coverage_delta (metrics df fdf) =
        Fl (average Coverage_Percentage fdf - average Coverage_Percentage df) \<and>
      avg_speed (metrics df fdf) = Fl (average Avg_Speed_Mbps fdf) \<and>
      avg_speed_delta (metrics df fdf) =
        Fl (average Avg_Speed_Mbps fdf - average Avg_Speed_Mbps df) \<and>
      avg_latency (metrics df fdf) = Fl (average Latency_ms fdf) \<and>
      avg_latency_delta (metrics df fdf) =
        Fl (average Latency_ms fdf - average Latency_ms df))"
  by (simp add: metrics_def Let_def mean_Nil mean_map)

theorem metrics_deltas_witness:
  "[row_lagos, row_kano] \<noteq> [] \<and>
   total_coverage_delta (metrics [row_lagos, row_kano] [row_lagos]) = Fl 10 \<and>
   total_users_delta (metrics [row_lagos, row_kano] [row_lagos]) = 1 / 2 \<and>
   avg_latency_delta (metrics [row_lagos, row_kano] []) = NaN"
  using metrics_deltas [of "[row_lagos, row_kano]" "[row_lagos]"]
    metrics_deltas [of "[row_lagos, row_kano]" "[]"]
  by (simp add: average_def row_lagos_def row_kano_def)

text \<open>
  C5. On every generated table (random source within its documented ranges), for any
  region selector, the threshold 100 leaves no row, and the metrics of the empty
  filtered table are values, not errors: the three means and their deltas are NaN, the
  sum of users is 0 and its delta is 0. (The f-strings format these values; formatting
  a NaN or a zero raises nothing.)
\<close>

theorem threshold_100_empty_metrics:
  assumes "rng_ok E"
  shows "filtered_df (fst (generate_sample_data E w)) sel 100 = [] \<and>
     metrics (fst (generate_sample_data E w)) (filtered_df (fst (generate_sample_data E w)) sel 100)
       = \<lparr>total_coverage = NaN, total_coverage_delta = NaN, total_users = 0,
          total_users_delta = 0, avg_speed = NaN, avg_speed_delta = NaN,
          avg_latency = NaN, avg_latency_delta = NaN\<rparr>"
proof -
  have "\<forall>r \<in> set (fst (generate_sample_data E w)). row_in_range r"
    using assms by (rule generate_rows_ok)
  then have "\<forall>r \<in> set (fst (generate_sample_data E w)). \<not> 100 \<le> Coverage_Percentage r"
    by (auto simp: row_in_range_def)
  then have empty: "filtered_df (fst (generate_sample_data E w)) sel 100 = []"
    by (simp add: filtered_df_filter filter_empty_conv)
  show ?thesis
    unfolding empty by (simp add: metrics_def mean_Nil)
qed

theorem threshold_100_empty_metrics_witness:
  "rng_ok env0 \<and> filtered_df (fst (generate_sample_data env0 0)) ''South West'' 100 = [] \<and>
   metrics (fst (generate_sample_data env0 0))
      (filtered_df (fst (generate_sample_data env0 0)) ''South West'' 100)
     = \<lparr>total_coverage = NaN, total_coverage_delta = NaN, total_users = 0,
        total_users_delta = 0, avg_speed = NaN, avg_speed_delta = NaN,
        avg_latency = NaN, avg_latency_delta = NaN\<rparr>"
  using rng_ok_env0 threshold_100_empty_metrics [OF rng_ok_env0, of 0 "''South West''"]
  by blast

section \<open>Properties of the regional aggregation\<close>

lemma sum_by_key:
  "finite K \<Longrightarrow> f ` set xs \<subseteq> K \<Longrightarrow>
   (\<Sum>k\<in>K. sum_list (map g (filter (\<lambda>r. f r = k) xs))) = (sum_list (map g xs) :: int)"
proof (induction xs)
  case Nil
  then show ?case by simp
next
  case (Cons x xs)
  have "(\<Sum>k\<in>K. sum_list (map g (filter (\<lambda>r. f r = k) (x # xs))))
      = (\<Sum>k\<in>K. (if f x = k then g x else 0) + sum_list (map g (filter (\<lambda>r. f r = k) xs)))"
    by (intro sum.cong) auto
  also have "\<dots> = (\<Sum>k\<in>K. if f x = k then g x else 0)
                 + (\<Sum>k\<in>K. sum_list (map g (filter (\<lambda>r. f r = k) xs)))"
    by (simp add: sum.distrib)
  also have "(\<Sum>k\<in>K. if f x = k then g x else 0) = g x"
    using Cons.prems by (simp add: sum.delta')
  finally show ?case using Cons by simp
qed

lemma group_keys_set: "set (group_keys fdf) = Region ` set fdf"
  by (simp add: group_keys_def)

lemma group_keys_distinct: "distinct (group_keys fdf)"
  by (simp add: group_keys_def)

lemma sum_over_groups:
  "sum_list (map (\<lambda>k. sum_list (map Connected_Users (get_group fdf k))) (group_keys fdf))
     = sum_list (map Connected_Users fdf)"
proof -
  have "sum_list (map (\<lambda>k. sum_list (map Connected_Users (get_group fdf k))) (group_keys fdf))
      = (\<Sum>k\<in>set (group_keys fdf). sum_list (map Connected_Users (get_group fdf k)))"
    using group_keys_distinct by (rule sum_list_distinct_conv_sum_set)
  also have "\<dots> = sum_list (map Connected_Users fdf)"
    unfolding get_group_def by (rule sum_by_key) (simp_all add: group_keys_set)
  finally show ?thesis .
qed

text \<open>
  C8. For every filtered table, the per-region sums of connected users, in the
  \<^verbatim>\<open>regional_users\<close> frame and in the \<^verbatim>\<open>regional_avg\<close> frame alike, add up to the sum
  of connected users over the whole filtered table. The regions listed are exactly the
  regions of the surviving rows, each once: a region without a surviving row is absent.
\<close>

theorem regional_sums_total:
  "sum_list (map snd (regional_users fdf)) = sum_list (map Connected_Users fdf) \<and>
   sum_list (map (\<lambda>(k, m, s, c). s) (regional_avg fdf)) = sum_list (map Connected_Users fdf) \<and>
   set (map fst (regional_users fdf)) = Region ` set fdf \<and>
   set (map fst (regional_avg fdf)) = Region ` set fdf \<and>
   (\<forall>k. (\<forall>r \<in> set fdf. Region r \<noteq> k) \<longrightarrow>
        k \<notin> set (map fst (regional_users fdf)) \<and> k \<notin> set (map fst (regional_avg fdf))) \<and>
   distinct (map fst (regional_users fdf)) \<and> distinct (map fst (regional_avg fdf))"
proof -
  have k1: "map fst (regional_users fdf) = group_keys fdf"
    by (simp add: regional_users_def comp_def)
  have k2: "map fst (regional_avg fdf) = group_keys fdf"
    by (simp add: regional_avg_def comp_def Let_def)
  have s1: "map snd (regional_users fdf)
      = map (\<lambda>k. sum_list (map Connected_Users (get_group fdf k))) (group_keys fdf)"
    by (simp add: regional_users_def comp_def)
  have s2: "map (\<lambda>(k, m, s, c). s) (regional_avg fdf)
      = map (\<lambda>k. sum_list (map Connected_Users (get_group fdf k))) (group_keys fdf)"
    by (simp add: regional_avg_def comp_def Let_def)
  show ?thesis
    unfolding k1 k2 s1 s2 using sum_over_groups [of fdf] group_keys_distinct [of fdf]
    by (auto simp: group_keys_set)
qed

theorem regional_sums_total_witness:
  "regional_users [row_lagos, row_kano, row_lagos] = [(''North West'', 600000), (''South West'', 1000000)]
   \<and> sum_list (map snd (regional_users [row_lagos, row_kano, row_lagos])) = 1600000
   \<and> list_all (\<lambda>r. Region r \<noteq> ''South East'') [row_lagos, row_kano, row_lagos]
   \<and> ''South East'' \<notin> set (map fst (regional_users [row_lagos, row_kano, row_lagos]))"
  using regional_sums_total [of "[row_lagos, row_kano, row_lagos]"]
  by (simp add: regional_users_def group_keys_def get_group_def row_lagos_def row_kano_def)

section \<open>Properties of the coverage map\<close>

lemma map_jitter_draws:
  "\<forall>x \<in> set xs. map_of nigeria_coords x \<noteq> None \<Longrightarrow>
   map_jitter E axis xs w =
     Inr (map2 (\<lambda>x u. axis (the (map_of nigeria_coords x)) + u) xs (fst (draws E (length xs) w)),
          snd (draws E (length xs) w))"
proof (induction xs arbitrary: w)
  case Nil
  then show ?case by simp
next
  case (Cons x xs)
  obtain u w' where u: "uniform E (-1) 1 w = (u, w')" by fastforce
  obtain us w'' where us: "draws E (length xs) w' = (us, w'')" by fastforce
  from Cons.prems obtain c where c: "map_of nigeria_coords x = Some c" by auto
  have "map_jitter E axis xs w' =
     Inr (map2 (\<lambda>x u. axis (the (map_of nigeria_coords x)) + u) xs us, w'')"
    using Cons.IH [of w'] Cons.prems us by simp
  then show ?case using u us c by simp
qed

lemma uniform_unit_range:
  assumes "rng_ok E"
  shows "-1 \<le> fst (uniform E (-1) 1 w) \<and> fst (uniform E (-1) 1 w) < 1"
proof -
  have "\<forall>lo hi w. lo < hi \<longrightarrow> lo \<le> fst (uniform E lo hi w) \<and> fst (uniform E lo hi w) < hi"
    using assms by (simp add: rng_ok_def)
  then have "(-1::real) < 1 \<longrightarrow> -1 \<le> fst (uniform E (-1) 1 w) \<and> fst (uniform E (-1) 1 w) < 1"
    by blast
  then show ?thesis by simp
qed

lemma draws_length: "length (fst (draws E n w)) = n"
proof (induction n arbitrary: w)
  case 0
  then show ?case by simp
next
  case (Suc n)
  obtain u w' where u: "uniform E (-1) 1 w = (u, w')" by fastforce
  obtain us w'' where us: "draws E n w' = (us, w'')" by fastforce
  show ?case using Suc.IH [of w'] u us by simp
qed

lemma draws_range:
  "rng_ok E \<Longrightarrow> \<forall>u \<in> set (fst (draws E n w)). -1 \<le> u \<and> u < 1"
proof (induction n arbitrary: w)
  case 0
  then show ?case by simp
next
  case (Suc n)
  obtain u w' where u: "uniform E (-1) 1 w = (u, w')" by fastforce
  obtain us w'' where us: "draws E n w' = (us, w'')" by fastforce
  have "-1 \<le> fst (uniform E (-1) 1 w) \<and> fst (uniform E (-1) 1 w) < 1"
    using Suc.prems by (rule uniform_unit_range)
  then have "-1 \<le> u \<and> u < 1" using u by simp
  moreover have "\<forall>v \<in> set us. -1 \<le> v \<and> v < 1"
    using Suc.IH [OF Suc.prems, of w'] us by simp
  ultimately show ?case using u us by simp
qed

text \<open>
  C9. Let the filtered table be a live object of the store whose regions are all in
  the table of centroids (six entries), and let the random source respect its
  documented range. Then the step succeeds; the map frame is a new object; every
  object that existed before, the filtered frame among them, is unchanged; the rows of
  the map frame are the rows of the filtered frame; and row \<open>i\<close> gets as latitude its
  region's centroid latitude plus the \<open>i\<close>-th of the first \<open>n\<close> draws and as longitude
  the centroid longitude plus the \<open>i\<close>-th of the next \<open>n\<close> draws, every draw its own
  call of \<^verbatim>\<open>uniform(-1, 1)\<close> with a value from -1 up to 1. The probability
  distribution of the draws is not part of the model.
\<close>

theorem coverage_map_jitter:
  assumes ok: "rng_ok E"
    and live: "filtered < next_addr h"
    and known: "\<forall>r \<in> set (rows (objs h filtered)). map_of nigeria_coords (Region r) \<noteq> None"
  shows "\<exists>map_df h' w' lats lons.
     length nigeria_coords = 6 \<and>
     coverage_map E h filtered w = Inr (map_df, h', w') \<and>
     map_df = next_addr h \<and>
     (\<forall>a. a \<noteq> map_df \<longrightarrow> objs h' a = objs h a) \<and>
     objs h' filtered = objs h filtered \<and>
     rows (objs h' map_df) = rows (objs h filtered) \<and>
     lat_col (objs h' map_df) = Some lats \<and>
     lon_col (objs h' map_df) = Some lons \<and>
     length lats = length (rows (objs h filtered)) \<and>
     length lons = length (rows (objs h filtered)) \<and>
     (\<forall>i < length (rows (objs h filtered)).
        \<exists>c u v. map_of nigeria_coords (Region (rows (objs h filtered) ! i)) = Some c \<and>
          u = fst (draws E (length (rows (objs h filtered))) w) ! i \<and>
          v = fst (draws E (length (rows (objs h filtered)))
                     (snd (draws E (length (rows (objs h filtered))) w))) ! i \<and>
          lats ! i = lat c + u \<and> lons ! i = lon c + v \<and>
          -1 \<le> u \<and> u < 1 \<and> -1 \<le> v \<and> v < 1)"
proof -
  define fr where "fr = rows (objs h filtered)"
  define n where "n = length fr"
  define xs where "xs = map Region fr"
  define us where "us = fst (draws E n w)"
  define w1 where "w1 = snd (draws E n w)"
  define vs where "vs = fst (draws E n w1)"
  define w2 where "w2 = snd (draws E n w1)"
  define lats where "lats = map2 (\<lambda>x u. lat (the (map_of nigeria_coords x)) + u) xs us"
  define lons where "lons = map2 (\<lambda>x u. lon (the (map_of nigeria_coords x)) + u) xs vs"
  define m where "m = next_addr h"
  define h1 where "h1 = snd (copy h filtered)"
  define h' where "h' = set_lon (set_lat h1 m lats) m lons"
  have xs_known: "\<forall>x \<in> set xs. map_of nigeria_coords x \<noteq> None"
    using known by (simp add: xs_def fr_def)
  have len_xs: "length xs = n" by (simp add: xs_def n_def)
  have cp: "copy h filtered = (m, h1)" by (simp add: h1_def m_def copy_def)
  have rows1: "rows (objs h1 m) = fr" by (simp add: h1_def m_def copy_def fr_def)
  have rows2: "rows (objs (set_lat h1 m lats) m) = fr"
    using rows1 by (simp add: set_lat_def)
  have j1: "map_jitter E lat xs w = Inr (lats, w1)"
    using map_jitter_draws [OF xs_known, of E lat w] by (simp add: len_xs lats_def us_def w1_def)
  have j2: "map_jitter E lon xs w1 = Inr (lons, w2)"
    using map_jitter_draws [OF xs_known, of E lon w1] by (simp add: len_xs lons_def vs_def w2_def)
  have run: "coverage_map E h filtered w = Inr (m, h', w2)"
    using j1 j2 by (simp add: coverage_map_def cp rows1 rows2 xs_def h'_def)
  have other: "\<forall>a. a \<noteq> m \<longrightarrow> objs h' a = objs h a"
    by (simp add: h'_def h1_def set_lon_def set_lat_def copy_def m_def)
  have "filtered \<noteq> m" using live by (simp add: m_def)
  then have same: "objs h' filtered = objs h filtered" using other by blast
  have rows': "rows (objs h' m) = fr"
    using rows1 by (simp add: h'_def set_lon_def set_lat_def)
  have cols: "lat_col (objs h' m) = Some lats" "lon_col (objs h' m) = Some lons"
    by (simp_all add: h'_def set_lon_def set_lat_def)
  have len_us: "length us = n" "length vs = n"
    by (simp_all add: us_def vs_def draws_length)
  have lens: "length lats = n" "length lons = n"
    by (simp_all add: lats_def lons_def len_xs len_us)
  have each: "\<exists>c u v. map_of nigeria_coords (Region (fr ! i)) = Some c \<and>
          u = us ! i \<and> v = vs ! i \<and>
          lats ! i = lat c + u \<and> lons ! i = lon c + v \<and>
          -1 \<le> u \<and> u < 1 \<and> -1 \<le> v \<and> v < 1" if i: "i < n" for i
  proof -
    have "fr ! i \<in> set fr" using i by (simp add: n_def)
    then obtain c where c: "map_of nigeria_coords (Region (fr ! i)) = Some c"
      using known by (auto simp: fr_def)
    have xi: "xs ! i = Region (fr ! i)" using i by (simp add: xs_def n_def)
    have "us ! i \<in> set us" "vs ! i \<in> set vs" using i len_us by simp_all
    then have rng: "-1 \<le> us ! i \<and> us ! i < 1" "-1 \<le> vs ! i \<and> vs ! i < 1"
      using draws_range [OF ok, of n w] draws_range [OF ok, of n w1]
      by (auto simp: us_def vs_def)
    have "lats ! i = lat c + us ! i" "lons ! i = lon c + vs ! i"
      using i len_xs len_us c xi by (simp_all add: lats_def lons_def)
    then show ?thesis using c rng by simp
  qed
  have six: "length nigeria_coords = 6" by (simp add: nigeria_coords_def)
  show ?thesis
    using six run other same rows' cols lens each
    unfolding fr_def [symmetric] n_def [symmetric] us_def [symmetric] w1_def [symmetric]
      vs_def [symmetric] m_def [symmetric]
    by blast
qed

theorem coverage_map_jitter_witness:
  "rng_ok env0 \<and> 0 < next_addr heap0 \<and>
   list_all (\<lambda>r. map_of nigeria_coords (Region r) \<noteq> None) (rows (objs heap0 0)) \<and>
   (\<exists>h' w'. coverage_map env0 heap0 0 (0::nat) = Inr (1, h', w') \<and>
      objs h' 0 = objs heap0 0 \<and> rows (objs h' 1) = [row_lagos, row_kano])"
proof -
  have live: "0 < next_addr heap0" by (simp add: heap0_def)
  have known: "\<forall>r \<in> set (rows (objs heap0 0)). map_of nigeria_coords (Region r) \<noteq> None"
    by (simp add: heap0_def row_lagos_def row_kano_def nigeria_coords_def)
  from coverage_map_jitter [OF rng_ok_env0 live known, of 0]
  obtain map_df h' w' where
    "coverage_map env0 heap0 0 0 = Inr (map_df, h', w')" "map_df = next_addr heap0"
    "objs h' 0 = objs heap0 0" "rows (objs h' map_df) = rows (objs heap0 0)"
    by blast
  then have "coverage_map env0 heap0 0 (0::nat) = Inr (1, h', w') \<and>
      objs h' 0 = objs heap0 0 \<and> rows (objs h' 1) = [row_lagos, row_kano]"
    by (simp add: heap0_def)
  then show ?thesis unfolding list_all_iff using rng_ok_env0 live known by blast
qed

section \<open>Properties of the raw data table\<close>

lemma insort_key_map:
  "insort_key f (g x) (map g xs) = map g (insort_key (\<lambda>r. f (g r)) x xs)"
  by (induction xs) simp_all

lemma sort_key_map:
  "sort_key f (map g xs) = map g (sort_key (\<lambda>r. f (g r)) xs)"
  by (induction xs) (simp_all add: insort_key_map)

lemma sort_values_desc_map:
  "sort_values_desc f (map g xs) = map g (sort_values_desc (\<lambda>r. f (g r)) xs)"
proof -
  have "sort_key f (rev (map g xs)) = map g (sort_key (\<lambda>r. f (g r)) (rev xs))"
    unfolding rev_map by (rule sort_key_map)
  then show ?thesis by (simp add: sort_values_desc_def rev_map)
qed

lemma raw_data_select:
  "raw_data fdf = map select_raw (sort_values_desc Coverage_Percentage fdf)"
proof -
  have "(\<lambda>r. Coverage_Percentage_raw (select_raw r)) = Coverage_Percentage"
    by (simp add: select_raw_def)
  then show ?thesis by (simp add: raw_data_def sort_values_desc_map)
qed

lemma sort_values_desc_mset: "mset (sort_values_desc f xs) = mset xs"
  by (simp add: sort_values_desc_def)

lemma sort_values_desc_sorted: "sorted (rev (map f (sort_values_desc f xs)))"
  by (simp add: sort_values_desc_def rev_map)

lemma sort_values_desc_keys: "map f (sort_values_desc f xs) = rev (sort (map f xs))"
proof -
  have "mset (rev (map f (sort_values_desc f xs))) = mset (map f xs)"
    by (simp add: sort_values_desc_def)
  then have "sort (map f xs) = rev (map f (sort_values_desc f xs))"
    using sort_values_desc_sorted by (rule properties_for_sort)
  then show ?thesis by simp
qed

text \<open>
  C10. The table shown is the filtered rows, reordered and cut to seven columns: there
  is a permutation of the filtered rows, in descending order of their
  \<^verbatim>\<open>Coverage_Percentage\<close>, of which the view is the row-by-row selection, each view row
  carrying the region, state, coverage, connected users, speed, latency and last update
  of its filtered row unchanged. So as a multiset the view is the selection of the
  filtered rows (none added, dropped or changed), its coverage column is the coverage
  column of the filtered table sorted in descending order, it has as many rows as the
  filtered table, and for the empty filtered table it is empty.
\<close>

theorem raw_data_sorted_permutation:
  "(\<exists>ys. mset ys = mset fdf \<and>
         sorted (rev (map Coverage_Percentage ys)) \<and>
         raw_data fdf =
           map (\<lambda>r. \<lparr>Region_raw = Region r, State_raw = State r,
                     Coverage_Percentage_raw = Coverage_Percentage r,
                     Connected_Users_raw = Connected_Users r,
                     Avg_Speed_Mbps_raw = Avg_Speed_Mbps r, Latency_ms_raw = Latency_ms r,
                     Last_Update_raw = Last_Update r\<rparr>) ys) \<and>
   mset (raw_data fdf) =
     image_mset (\<lambda>r. \<lparr>Region_raw = Region r, State_raw = State r,
                     Coverage_Percentage_raw = Coverage_Percentage r,
                     Connected_Users_raw = Connected_Users r,
                     Avg_Speed_Mbps_raw = Avg_Speed_Mbps r, Latency_ms_raw = Latency_ms r,
                     Last_Update_raw = Last_Update r\<rparr>) (mset fdf) \<and>
   map Coverage_Percentage_raw (raw_data fdf) = rev (sort (map Coverage_Percentage fdf)) \<and>
   mset (raw_data fdf) = mset (map select_raw fdf) \<and>
   length (raw_data fdf) = length fdf \<and>
   sorted (rev (map Coverage_Percentage_raw (raw_data fdf))) \<and>
   (\<forall>i j. i \<le> j \<and> j < length (raw_data fdf) \<longrightarrow>
      Coverage_Percentage_raw (raw_data fdf ! j) \<le> Coverage_Percentage_raw (raw_data fdf ! i)) \<and>
   raw_data [] = []"
proof -
  let ?proj = "\<lambda>r. \<lparr>Region_raw = Region r, State_raw = State r,
                     Coverage_Percentage_raw = Coverage_Percentage r,
                     Connected_Users_raw = Connected_Users r,
                     Avg_Speed_Mbps_raw = Avg_Speed_Mbps r, Latency_ms_raw = Latency_ms r,
                     Last_Update_raw = Last_Update r\<rparr>"
  let ?ys = "sort_values_desc Coverage_Percentage fdf"
  have proj: "select_raw = ?proj" by (rule ext) (simp add: select_raw_def)
  have view: "raw_data fdf = map ?proj ?ys"
    using raw_data_select [of fdf] by (simp only: proj)
  have perm: "mset ?ys = mset fdf" by (rule sort_values_desc_mset)
  have desc: "sorted (rev (map Coverage_Percentage ?ys))" by (rule sort_values_desc_sorted)
  have ex: "\<exists>ys. mset ys = mset fdf \<and> sorted (rev (map Coverage_Percentage ys)) \<and>
         raw_data fdf = map ?proj ys"
    using perm desc view by blast
  have m: "mset (raw_data fdf) = mset (map select_raw fdf)"
    by (simp add: raw_data_def sort_values_desc_def)
  have m': "mset (raw_data fdf) = image_mset ?proj (mset fdf)"
    unfolding view using perm by (simp only: mset_map)
  have keys: "map Coverage_Percentage_raw (raw_data fdf) = rev (sort (map Coverage_Percentage fdf))"
    unfolding view using sort_values_desc_keys [of Coverage_Percentage fdf]
    by (simp add: comp_def)
  have l: "length (raw_data fdf) = length fdf"
    by (simp add: raw_data_def sort_values_desc_def)
  have s: "sorted (rev (map Coverage_Percentage_raw (raw_data fdf)))"
    by (simp add: raw_data_def sort_values_desc_def rev_map)
  have d: "Coverage_Percentage_raw (raw_data fdf ! j) \<le> Coverage_Percentage_raw (raw_data fdf ! i)"
    if "i \<le> j" "j < length (raw_data fdf)" for i j
  proof -
    let ?ks = "map Coverage_Percentage_raw (raw_data fdf)"
    let ?n = "length (raw_data fdf)"
    have "rev ?ks ! (?n - 1 - j) \<le> rev ?ks ! (?n - 1 - i)"
      using that s by (intro sorted_nth_mono) auto
    then show ?thesis using that by (simp add: rev_nth)
  qed
  have e: "raw_data [] = []" by (simp add: raw_data_def sort_values_desc_def)
  show ?thesis using ex m' keys m l s d e by blast
qed

theorem raw_data_sorted_permutation_witness:
  "raw_data [row_kano, row_lagos] =
     [\<lparr>Region_raw = ''South West'', State_raw = ''Lagos'', Coverage_Percentage_raw = 50,
       Connected_Users_raw = 500000, Avg_Speed_Mbps_raw = 10, Latency_ms_raw = 40,
       Last_Update_raw = 0\<rparr>,
      \<lparr>Region_raw = ''North West'', State_raw = ''Kano'', Coverage_Percentage_raw = 30,
       Connected_Users_raw = 600000, Avg_Speed_Mbps_raw = 20, Latency_ms_raw = 60,
       Last_Update_raw = 0\<rparr>]
   \<and> map Coverage_Percentage_raw (raw_data [row_kano, row_lagos]) = [50, 30]
   \<and> length (raw_data [row_kano, row_lagos]) = 2"
  using raw_data_sorted_permutation [of "[row_kano, row_lagos]"]
  by (simp add: raw_data_def sort_values_desc_def select_raw_def row_lagos_def row_kano_def)

section \<open>Properties of the CSV export\<close>

lemma split_acc_sep:
  "c \<notin> set p \<Longrightarrow> split_acc c acc (p @ c # rest) = (rev acc @ p) # split_acc c [] rest"
  by (induction p arbitrary: acc) auto

lemma split_acc_last: "c \<notin> set p \<Longrightarrow> split_acc c acc p = [rev acc @ p]"
  by (induction p arbitrary: acc) auto

lemma split_on_join:
  "cells \<noteq> [] \<Longrightarrow> \<forall>s \<in> set cells. c \<notin> set s \<Longrightarrow> split_on c (join [c] cells) = cells"
proof (induction "[c]" cells rule: join.induct)
  case 1
  then show ?case by simp
next
  case (2 x)
  then show ?case by (simp add: split_on_def split_acc_last)
next
  case (3 x y ys)
  then show ?case by (simp add: split_on_def split_acc_sep)
qed

lemma split_on_lines:
  "\<forall>l \<in> set ls. c \<notin> set l \<Longrightarrow> split_on c (concat (map (\<lambda>l. l @ [c]) ls)) = ls @ [[]]"
proof (induction ls)
  case Nil
  then show ?case by (simp add: split_on_def)
next
  case (Cons l ls)
  then show ?case by (simp add: split_on_def split_acc_sep)
qed

lemma set_join: "set (join sep cells) \<subseteq> set sep \<union> \<Union> (set ` set cells)"
  by (induction sep cells rule: join.induct) auto

lemma plain_iff: "plain s \<longleftrightarrow> (\<forall>c \<in> set s. c \<noteq> CHR '','' \<and> c \<noteq> CHR 0x22 \<and> c \<noteq> CHR 0x0D \<and> c \<noteq> CHR 0x0A)"
  by (simp add: plain_def list_all_iff)

lemma quote_field_plain:
  "plain s \<Longrightarrow> set sep \<subseteq> {CHR 0x0D, CHR 0x0A} \<Longrightarrow> quote_field sep s = s"
  by (auto simp add: quote_field_def needs_quote_def special_chars_def plain_iff list_ex_iff)

lemma digit_char_digit: "d < 10 \<Longrightarrow> digit_char d \<in> set ''0123456789''"
  unfolding digit_char_def by (rule nth_mem) simp

lemma digits_digit: "set (digits n) \<subseteq> set ''0123456789''"
proof (induction n rule: digits.induct)
  case (1 n)
  show ?case
  proof (cases "n < 10")
    case True
    then show ?thesis using digit_char_digit [of n] by (subst digits.simps) simp
  next
    case False
    have "digit_char (n mod 10) \<in> set ''0123456789''" by (rule digit_char_digit) simp
    then show ?thesis using False 1 by (subst digits.simps) simp
  qed
qed

lemma plain_digits: "plain (digits n)"
  using digits_digit [of n] by (auto simp add: plain_iff)

lemma plain_str_int: "plain (str_int i)"
  using plain_digits by (simp add: str_int_def plain_iff)

lemma plain_columns: "\<forall>s \<in> set columns. plain s"
  by (simp add: columns_def plain_def)

lemma digits_length: "0 < k \<Longrightarrow> n < 10 ^ k \<Longrightarrow> length (digits n) \<le> k"
proof (induction n arbitrary: k rule: digits.induct)
  case (1 n)
  show ?case
  proof (cases "n < 10")
    case True
    then show ?thesis using "1.prems" by (subst digits.simps) simp
  next
    case False
    then have "1 < k" using "1.prems" by (cases "k = 1") auto
    then obtain j where j: "k = Suc j" "0 < j" by (cases k) auto
    have "n div 10 < 10 ^ j" using "1.prems" j by (simp add: less_mult_imp_div_less mult.commute)
    then have "length (digits (n div 10)) \<le> j" using "1.IH" False j by simp
    then show ?thesis using False j by (subst digits.simps) simp
  qed
qed

lemma zero_pad_length: "length s \<le> w \<Longrightarrow> length (zero_pad w s) = w"
  by (simp add: zero_pad_def)

lemma zero_pad_digit: "set s \<subseteq> set ''0123456789'' \<Longrightarrow> set (zero_pad w s) \<subseteq> set ''0123456789''"
  by (auto simp add: zero_pad_def)

lemma strftime_Ymd_shape:
  assumes "year d < 10000" "month d < 100" "day d < 100"
  shows "length (strftime_Ymd d) = 8" and "set (strftime_Ymd d) \<subseteq> set ''0123456789''"
proof -
  have "length (digits (year d)) \<le> 4" using assms(1) by (intro digits_length) simp_all
  moreover have "length (digits (month d)) \<le> 2" using assms(2) by (intro digits_length) simp_all
  moreover have "length (digits (day d)) \<le> 2" using assms(3) by (intro digits_length) simp_all
  ultimately show "length (strftime_Ymd d) = 8"
    by (simp add: strftime_Ymd_def zero_pad_length)
  show "set (strftime_Ymd d) \<subseteq> set ''0123456789''"
    unfolding strftime_Ymd_def using zero_pad_digit [OF digits_digit] by (simp del: set_simps)
qed

lemma csv_line_plain:
  assumes "\<forall>s \<in> set cells. plain s" and "set sep \<subseteq> {CHR 0x0D, CHR 0x0A}"
  shows "csv_line sep cells = join '','' cells @ sep"
proof -
  have "map (quote_field sep) cells = cells"
    using assms by (simp add: map_idI quote_field_plain)
  then show ?thesis by (simp add: csv_line_def)
qed

lemma to_csv_lines:
  "to_csv F fdf =
     csv_line (linesep F) columns @ concat (map (\<lambda>r. csv_line (linesep F) (row_fields F r)) fdf)"
  by (simp add: to_csv_def comp_def)

lemma header_line:
  assumes "set sep \<subseteq> {CHR 0x0D, CHR 0x0A}"
  shows "csv_line sep columns =
    ''Region,State,Population,Coverage_Percentage,Connected_Users,Avg_Speed_Mbps,Latency_ms,Last_Update''
    @ sep"
proof -
  have "csv_line sep columns = join '','' columns @ sep"
    using plain_columns assms by (rule csv_line_plain)
  then show ?thesis by (simp add: columns_def)
qed

lemma join_no_newline:
  assumes "\<forall>s \<in> set cells. plain s"
  shows "CHR 0x0A \<notin> set (join '','' cells)"
proof
  assume "CHR 0x0A \<in> set (join '','' cells)"
  then have "CHR 0x0A \<in> set '','' \<union> \<Union> (set ` set cells)"
    using set_join [of "'',''" cells] by blast
  then show False using assms by (auto simp: plain_iff)
qed

lemma read_csv_lines:
  assumes "\<forall>cells \<in> set table. cells \<noteq> [] \<and> (\<forall>s \<in> set cells. plain s)"
  shows "read_csv (concat (map (csv_line [CHR 0x0A]) table)) = table"
proof -
  let ?ls = "map (join '','') table"
  have eq: "map (csv_line [CHR 0x0A]) table = map (\<lambda>l. l @ [CHR 0x0A]) ?ls"
    using assms by (simp add: csv_line_plain)
  have nl: "\<forall>l \<in> set ?ls. CHR 0x0A \<notin> set l"
    using assms by (auto simp: join_no_newline)
  have "split_on CHR 0x0A (concat (map (csv_line [CHR 0x0A]) table)) = ?ls @ [[]]"
    unfolding eq using nl by (rule split_on_lines)
  then have "read_csv (concat (map (csv_line [CHR 0x0A]) table)) = map (split_on CHR '','') ?ls"
    by (simp add: read_csv_def)
  also have "\<dots> = table"
  proof -
    have "split_on CHR '','' (join '','' cells) = cells" if "cells \<in> set table" for cells
      using that assms by (intro split_on_join) (auto simp: plain_iff)
    then show ?thesis by (simp add: map_idI)
  qed
  finally show ?thesis .
qed

lemma row_fields_plain:
  assumes "\<forall>x. plain (float_repr F x)" "\<forall>t. plain (datetime_str F t)"
    "plain (Region r)" "plain (State r)"
  shows "\<forall>s \<in> set (row_fields F r). plain s"
  using assms plain_str_int by (simp add: row_fields_def)

lemma plain_formats0:
  "\<forall>x. plain (float_repr formats0 x)" "\<forall>t. plain (datetime_str formats0 t)"
  using plain_str_int by (simp_all add: formats0_def plain_iff)

lemma generate_env0_south_west:
  "filtered_df (fst (generate_sample_data env0 0)) ''South West'' 0 =
   map (\<lambda>(s, t). \<lparr>Region = ''South West'', State = s, Population = 500000,
      Coverage_Percentage = 20, Connected_Users = 100000, Avg_Speed_Mbps = 5,
      Latency_ms = 20, Last_Update = t\<rparr>)
    [(''Ekiti'', 190), (''Lagos'', 196), (''Ogun'', 202), (''Ondo'', 208), (''Osun'', 214), (''Oyo'', 220)]"
  by (simp add: generate_sample_data_def regions_def env0_def make_row_def py_int_def
      timedelta_days_def filtered_df_def filter_region_def filter_coverage_def)

text \<open>
  C2 as stated fails: the header of the export is not the seven listed columns. The
  export writes the frame \<^verbatim>\<open>filtered_df\<close>, which has the column \<^verbatim>\<open>Population\<close> as well.
  Shown on the table generated in the world \<open>env0\<close>, filtered to the region South West.
\<close>

theorem to_csv_seven_columns_counterexample:
  "take 1 (read_csv (to_csv formats0
      (filtered_df (fst (generate_sample_data env0 0)) ''South West'' 0))) \<noteq>
     [[''Region'', ''State'', ''Coverage_Percentage'', ''Connected_Users'',
       ''Avg_Speed_Mbps'', ''Latency_ms'', ''Last_Update'']]"
  unfolding generate_env0_south_west
  by (simp add: to_csv_def columns_def csv_line_def quote_field_def needs_quote_def
      special_chars_def formats0_def read_csv_def split_on_def)

lemma to_csv_read_back:
  assumes sep: "linesep F = [CHR 0x0A]"
    and fl: "\<forall>x. plain (float_repr F x)"
    and dt: "\<forall>t. plain (datetime_str F t)"
    and names: "\<forall>r \<in> set fdf. plain (Region r) \<and> plain (State r)"
  shows "read_csv (to_csv F fdf) = columns # map (row_fields F) fdf"
proof -
  let ?table = "columns # map (row_fields F) fdf"
  have rows_plain: "\<forall>r \<in> set fdf. \<forall>s \<in> set (row_fields F r). plain s"
    using row_fields_plain [OF fl dt] names by blast
  have ok: "\<forall>cells \<in> set ?table. cells \<noteq> [] \<and> (\<forall>s \<in> set cells. plain s)"
  proof
    fix cells assume "cells \<in> set ?table"
    then consider "cells = columns" | r where "r \<in> set fdf" "cells = row_fields F r" by auto
    then show "cells \<noteq> [] \<and> (\<forall>s \<in> set cells. plain s)"
    proof cases
      case 1
      then show ?thesis using plain_columns by (simp add: columns_def)
    next
      case 2
      then show ?thesis using rows_plain by (simp add: row_fields_def)
    qed
  qed
  show ?thesis
    unfolding to_csv_def sep using ok by (rule read_csv_lines)
qed

lemma file_name_shape:
  assumes "year (calendar t) \<le> 9999" "month (calendar t) \<le> 12" "day (calendar t) \<le> 31"
  shows "\<exists>ymd. file_name calendar t = ''nigcomsat_coverage_'' @ ymd @ ''.csv''
           \<and> ymd = strftime_Ymd (calendar t) \<and> length ymd = 8
           \<and> set ymd \<subseteq> set ''0123456789''"
proof -
  have bounds: "year (calendar t) < 10000" "month (calendar t) < 100" "day (calendar t) < 100"
    using assms by simp_all
  have "length (strftime_Ymd (calendar t)) = 8"
      "set (strftime_Ymd (calendar t)) \<subseteq> set ''0123456789''"
    by (rule strftime_Ymd_shape(1) [OF bounds], rule strftime_Ymd_shape(2) [OF bounds])
  then show ?thesis unfolding file_name_def by blast
qed

text \<open>
  C2, amended. The export has the eight columns Region, State, Population,
  Coverage_Percentage, Connected_Users, Avg_Speed_Mbps, Latency_ms, Last_Update: for a
  line terminator made of carriage return and line feed characters, the text is the
  header line with these names in this order, followed by one comma-separated line per
  filtered row, in the order of the rows, each of eight cells. Where moreover the line
  terminator is the line feed and no cell needs quoting (the printed numbers and
  timestamps, and region and state names without comma, quote or line break), reading
  the text back gives the eight names and then the cells of each row: one line more
  than there are rows. The file name is \<^verbatim>\<open>nigcomsat_coverage_\<close>, the eight digits of
  year, month and day of the clock reading, and \<^verbatim>\<open>.csv\<close>, for a date with a
  four-digit year.
\<close>

theorem to_csv_eight_columns:
  "(set (linesep F) \<subseteq> {CHR 0x0D, CHR 0x0A} \<longrightarrow>
      to_csv F fdf =
        ''Region,State,Population,Coverage_Percentage,Connected_Users,Avg_Speed_Mbps,Latency_ms,Last_Update''
        @ linesep F @ concat (map (\<lambda>r. csv_line (linesep F) (row_fields F r)) fdf)
      \<and> (\<forall>r \<in> set fdf. length (row_fields F r) = 8))
   \<and> (linesep F = [CHR 0x0A] \<and> (\<forall>x. plain (float_repr F x)) \<and> (\<forall>t. plain (datetime_str F t))
        \<and> (\<forall>r \<in> set fdf. plain (Region r) \<and> plain (State r)) \<longrightarrow>
      read_csv (to_csv F fdf) =
        [''Region'', ''State'', ''Population'', ''Coverage_Percentage'',
         ''Connected_Users'', ''Avg_Speed_Mbps'', ''Latency_ms'', ''Last_Update'']
        # map (row_fields F) fdf
      \<and> length (read_csv (to_csv F fdf)) = 1 + length fdf)
   \<and> (1000 \<le> year (calendar t) \<and> year (calendar t) \<le> 9999 \<and>
       1 \<le> month (calendar t) \<and> month (calendar t) \<le> 12 \<and>
       1 \<le> day (calendar t) \<and> day (calendar t) \<le> 31 \<longrightarrow>
      (\<exists>ymd. file_name calendar t = ''nigcomsat_coverage_'' @ ymd @ ''.csv''
           \<and> ymd = strftime_Ymd (calendar t) \<and> length ymd = 8
           \<and> set ymd \<subseteq> set ''0123456789''))"
proof (intro conjI impI)
  assume sep: "set (linesep F) \<subseteq> {CHR 0x0D, CHR 0x0A}"
  show "to_csv F fdf =
        ''Region,State,Population,Coverage_Percentage,Connected_Users,Avg_Speed_Mbps,Latency_ms,Last_Update''
        @ linesep F @ concat (map (\<lambda>r. csv_line (linesep F) (row_fields F r)) fdf)"
    unfolding to_csv_lines header_line [OF sep] by (simp only: append_assoc)
  show "\<forall>r \<in> set fdf. length (row_fields F r) = 8"
    by (simp add: row_fields_def)
next
  assume h: "linesep F = [CHR 0x0A] \<and> (\<forall>x. plain (float_repr F x)) \<and> (\<forall>t. plain (datetime_str F t))
        \<and> (\<forall>r \<in> set fdf. plain (Region r) \<and> plain (State r))"
  then have parsed: "read_csv (to_csv F fdf) = columns # map (row_fields F) fdf"
    by (intro to_csv_read_back) simp_all
  show "read_csv (to_csv F fdf) =
        [''Region'', ''State'', ''Population'', ''Coverage_Percentage'',
         ''Connected_Users'', ''Avg_Speed_Mbps'', ''Latency_ms'', ''Last_Update'']
        # map (row_fields F) fdf"
    using parsed by (simp only: columns_def)
  show "length (read_csv (to_csv F fdf)) = 1 + length fdf"
    unfolding parsed by simp
next
  assume "1000 \<le> year (calendar t) \<and> year (calendar t) \<le> 9999 \<and>
       1 \<le> month (calendar t) \<and> month (calendar t) \<le> 12 \<and>
       1 \<le> day (calendar t) \<and> day (calendar t) \<le> 31"
  then show "\<exists>ymd. file_name calendar t = ''nigcomsat_coverage_'' @ ymd @ ''.csv''
           \<and> ymd = strftime_Ymd (calendar t) \<and> length ymd = 8
           \<and> set ymd \<subseteq> set ''0123456789''"
    by (intro file_name_shape) simp_all
qed

theorem to_csv_eight_columns_witness:
  "set (linesep formats0) \<subseteq> {CHR 0x0D, CHR 0x0A} \<and> linesep formats0 = [CHR 0x0A] \<and>
   (\<forall>x. plain (float_repr formats0 x)) \<and> (\<forall>t. plain (datetime_str formats0 t)) \<and>
   list_all (\<lambda>r. plain (Region r) \<and> plain (State r)) [row_kano, row_lagos] \<and>
   1000 \<le> year (calendar0 0) \<and> year (calendar0 0) \<le> 9999 \<and>
   1 \<le> month (calendar0 0) \<and> month (calendar0 0) \<le> 12 \<and>
   1 \<le> day (calendar0 0) \<and> day (calendar0 0) \<le> 31 \<and>
   length (read_csv (to_csv formats0 [row_kano, row_lagos])) = 3 \<and>
   file_name calendar0 0 = ''nigcomsat_coverage_20261103.csv''"
proof -
  have sep: "linesep formats0 = [CHR 0x0A]" by (simp add: formats0_def)
  have sep': "set (linesep formats0) \<subseteq> {CHR 0x0D, CHR 0x0A}" by (simp add: formats0_def)
  have names: "\<forall>r \<in> set [row_kano, row_lagos]. plain (Region r) \<and> plain (State r)"
    by (simp add: row_kano_def row_lagos_def plain_def)
  have cal: "1000 \<le> year (calendar0 0) \<and> year (calendar0 0) \<le> 9999 \<and>
              1 \<le> month (calendar0 0) \<and> month (calendar0 0) \<le> 12 \<and>
              1 \<le> day (calendar0 0) \<and> day (calendar0 0) \<le> 31"
    by (simp add: calendar0_def)
  have fn: "file_name calendar0 0 = ''nigcomsat_coverage_20261103.csv''"
    by (simp add: file_name_def calendar0_def strftime_Ymd_def zero_pad_def digits.simps digit_char_def)
  have "length (read_csv (to_csv formats0 [row_kano, row_lagos])) = 1 + length [row_kano, row_lagos]"
    using to_csv_eight_columns [of formats0 "[row_kano, row_lagos]" calendar0 0]
      sep plain_formats0 names by blast
  then have "length (read_csv (to_csv formats0 [row_kano, row_lagos])) = 3" by simp
  then show ?thesis unfolding list_all_iff using sep sep' plain_formats0 names cal fn by blast
qed

end
